theory Spec2Isabelle
  imports Main
begin

section \<open>Linux process metrics monitor: data model\<close>

text \<open>
  The embedding follows \<^verbatim>\<open>scalyr_agent/builtin_monitors/linux_process_metrics.py\<close>.

  A metric key is the tuple \<^verbatim>\<open>(_metric_name, _metric_type)\<close>; the type is
  \<^verbatim>\<open>None\<close> for metrics such as \<^verbatim>\<open>('app.uptime', None)\<close>. Metric values
  are Python numbers; they are modelled as \<open>int\<close> (the one float the readers
  produce, \<^verbatim>\<open>app.nice\<close>, is a whole number).

  A Python \<^verbatim>\<open>dict\<close> is modelled as an association list with distinct keys whose
  list order is the order in which \<^verbatim>\<open>items()\<close> yields the entries. Python 2
  does not specify that order; the model adds a new key at the end, and the
  statements about a single step are made for every list, hence for every order.
  Output written with \<^verbatim>\<open>print\<close> is kept only where an exception is printed.
\<close>

type_synonym metric_key = "string \<times> string option"
type_synonym sample = "(metric_key \<times> int) list"
type_synonym process_metrics = "(metric_key \<times> int list) list"
type_synonym history = "(int \<times> process_metrics) list"
type_synonym running_total = "(metric_key \<times> int) list"

datatype py_exception =
    IOError int
  | OSError int
  | IndexError
  | KeyError
  | ValueError
  | RegexError

record monitor_state =
  metrics_history :: history
  running_total_metrics :: running_total

text \<open>\<^verbatim>\<open>d[k] = v\<close>: an existing key keeps its place, a new key is added.\<close>

fun dict_set :: "('k \<times> 'v) list \<Rightarrow> 'k \<Rightarrow> 'v \<Rightarrow> ('k \<times> 'v) list" where
  "dict_set [] k v = [(k, v)]"
| "dict_set ((k', v') # d) k v =
     (if k' = k then (k, v) # d else (k', v') # dict_set d k v)"

text \<open>\<^verbatim>\<open>d[k] += x\<close>: raises \<^verbatim>\<open>KeyError\<close> when the key is missing.\<close>

definition dict_add ::
  "('k \<times> int) list \<Rightarrow> 'k \<Rightarrow> int \<Rightarrow> py_exception + ('k \<times> int) list" where
  "dict_add d k x =
     (case map_of d k of
        None \<Rightarrow> Inl KeyError
      | Some v \<Rightarrow> Inr (dict_set d k (v + x)))"

text \<open>\<^verbatim>\<open>xs[-2:]\<close>: the last two elements, or all of a shorter list.\<close>

definition last2 :: "'a list \<Rightarrow> 'a list" where
  "last2 xs = drop (length xs - 2) xs"

text \<open>The value the emitter reads for a key, 0 standing for a missing entry.\<close>

definition rt_value :: "running_total \<Rightarrow> metric_key \<Rightarrow> int" where
  "rt_value rt k = (case map_of rt k of None \<Rightarrow> 0 | Some v \<Rightarrow> v)"

section \<open>ProcessMonitor: recording, resetting, recomputing\<close>

text \<open>
  \<^verbatim>\<open>_record_metrics\<close>, one iteration of its loop. \<^verbatim>\<open>__metrics_history\<close> is a
  \<^verbatim>\<open>defaultdict(dict)\<close>: reading a missing pid creates an empty entry for it.
  A missing or empty value list is replaced by \<^verbatim>\<open>[]\<close>, the value is appended and
  the list is cut to its last two elements.
\<close>

definition record_metric :: "history \<Rightarrow> int \<Rightarrow> metric_key \<times> int \<Rightarrow> history" where
  "record_metric h pid kv =
     (case kv of (k, v) \<Rightarrow>
        let pm = (case map_of h pid of None \<Rightarrow> [] | Some pm \<Rightarrow> pm);
            vs = (case map_of pm k of None \<Rightarrow> [] | Some vs \<Rightarrow> vs)
        in dict_set h pid (dict_set pm k (last2 (vs @ [v]))))"

definition record_metrics :: "history \<Rightarrow> int \<Rightarrow> sample \<Rightarrow> history" where
  "record_metrics h pid metrics = foldl (\<lambda>h kv. record_metric h pid kv) h metrics"

text \<open>
  \<^verbatim>\<open>_reset_absolute_metrics\<close>: for every key held in the history of some pid whose
  name is not in the tuple \<^verbatim>\<open>('app.cpu', )\<close>, the running total is set to 0.
\<close>

definition reset_entry :: "running_total \<Rightarrow> metric_key \<times> int list \<Rightarrow> running_total" where
  "reset_entry rt kvs =
     (case kvs of (k, vs) \<Rightarrow> if fst k \<noteq> ''app.cpu'' then dict_set rt k 0 else rt)"

definition reset_absolute_metrics :: "history \<Rightarrow> running_total \<Rightarrow> running_total" where
  "reset_absolute_metrics h rt =
     foldl (\<lambda>rt ppm. foldl reset_entry rt (snd ppm)) rt h"

text \<open>
  \<^verbatim>\<open>_calculate_running_total\<close>, the body of the inner loop for one
  \<^verbatim>\<open>(pid, key, values)\<close>. The first statement stores 0 when
  \<^verbatim>\<open>__running_total_metrics.get(key)\<close> is falsy, that is missing or 0.
  \<^verbatim>\<open>_metric_values[-1]\<close> raises \<^verbatim>\<open>IndexError\<close> on an empty list; the
  \<^verbatim>\<open>app.cpu\<close> branch reads the list only after checking its length.
\<close>

definition rt_init :: "running_total \<Rightarrow> metric_key \<Rightarrow> running_total" where
  "rt_init rt k =
     (if (case map_of rt k of None \<Rightarrow> True | Some v \<Rightarrow> v = 0)
      then dict_set rt k 0 else rt)"

definition calc_entry ::
  "int list \<Rightarrow> int \<Rightarrow> running_total \<Rightarrow> metric_key \<times> int list \<Rightarrow>
     py_exception + running_total" where
  "calc_entry running_pids pid rt kvs =
     (case kvs of (k, vs) \<Rightarrow>
        let rt1 = rt_init rt k in
        if fst k = ''app.cpu'' then
          if pid \<in> set running_pids then
            if length vs < 2 then Inr (dict_set rt1 k 0)
            else dict_add rt1 k (vs ! (length vs - 1) - vs ! (length vs - 2))
          else
            if length vs \<ge> 2
            then dict_add rt1 k (- (vs ! (length vs - 1) - vs ! (length vs - 2)))
            else Inr rt1
        else
          if vs = [] then Inl IndexError
          else dict_add rt1 k (vs ! (length vs - 1)))"

fun calc_process ::
  "int list \<Rightarrow> int \<Rightarrow> process_metrics \<Rightarrow> running_total \<Rightarrow>
     py_exception + running_total" where
  "calc_process running_pids pid [] rt = Inr rt"
| "calc_process running_pids pid (kvs # pm) rt =
     (case calc_entry running_pids pid rt kvs of
        Inl e \<Rightarrow> Inl e
      | Inr rt' \<Rightarrow> calc_process running_pids pid pm rt')"

fun calc_history ::
  "int list \<Rightarrow> history \<Rightarrow> running_total \<Rightarrow> py_exception + running_total" where
  "calc_history running_pids [] rt = Inr rt"
| "calc_history running_pids (ppm # h) rt =
     (case calc_process running_pids (fst ppm) (snd ppm) rt of
        Inl e \<Rightarrow> Inl e
      | Inr rt' \<Rightarrow> calc_history running_pids h rt')"

text \<open>
  The second loop of \<^verbatim>\<open>_calculate_running_total\<close> deletes the history of every
  pid in \<^verbatim>\<open>set(all_pids) - set(running_pids)\<close>.
\<close>

definition purge :: "int list \<Rightarrow> history \<Rightarrow> history" where
  "purge running_pids h = filter (\<lambda>ppm. fst ppm \<in> set running_pids) h"

definition calculate_running_total ::
  "int list \<Rightarrow> monitor_state \<Rightarrow> py_exception + monitor_state" where
  "calculate_running_total running_pids st =
     (case calc_history running_pids (metrics_history st) (running_total_metrics st) of
        Inl e \<Rightarrow> Inl e
      | Inr rt \<Rightarrow>
          Inr \<lparr>metrics_history = purge running_pids (metrics_history st),
               running_total_metrics = rt\<rparr>)"

text \<open>
  \<^verbatim>\<open>gather_sample\<close>, from the trackers on. The argument \<open>trackers\<close> lists, for
  every tracker built from the selected pids, its pid and the sample its
  \<^verbatim>\<open>collect()\<close> returned. The samples are recorded, the absolute totals reset, and
  the running total recomputed with the trackers' pids as the running pids.
\<close>

definition record_all :: "history \<Rightarrow> (int \<times> sample) list \<Rightarrow> history" where
  "record_all h trackers = foldl (\<lambda>h t. record_metrics h (fst t) (snd t)) h trackers"

definition gather_sample ::
  "(int \<times> sample) list \<Rightarrow> monitor_state \<Rightarrow> py_exception + monitor_state" where
  "gather_sample trackers st =
     (let h = record_all (metrics_history st) trackers;
          rt = reset_absolute_metrics h (running_total_metrics st)
      in calculate_running_total (map fst trackers)
           \<lparr>metrics_history = h, running_total_metrics = rt\<rparr>)"

text \<open>Consecutive cycles; an exception leaving a cycle ends the run.\<close>

fun run_cycles ::
  "(int \<times> sample) list list \<Rightarrow> monitor_state \<Rightarrow> py_exception + monitor_state" where
  "run_cycles [] st = Inr st"
| "run_cycles (trackers # rest) st =
     (case gather_sample trackers st of
        Inl e \<Rightarrow> Inl e
      | Inr st' \<Rightarrow> run_cycles rest st')"

text \<open>The state \<^verbatim>\<open>_initialize\<close> builds: no history, no running total.\<close>

definition initial_state :: monitor_state where
  "initial_state = \<lparr>metrics_history = [], running_total_metrics = []\<rparr>"

text \<open>
  \<^verbatim>\<open>print_metrics\<close>: one \<^verbatim>\<open>emit_value(name, value, extra)\<close> per entry of the
  running total; \<^verbatim>\<open>extra\<close> holds the monitor id under \<^verbatim>\<open>'app'\<close> and the
  metric type under \<^verbatim>\<open>'type'\<close> when the type is truthy.
\<close>

definition print_metrics ::
  "string \<Rightarrow> running_total \<Rightarrow> (string \<times> int \<times> (string \<times> string) list) list" where
  "print_metrics monitor_id rt =
     map (\<lambda>kv. (fst (fst kv), snd kv,
                (''app'', monitor_id) #
                (case snd (fst kv) of
                   None \<Rightarrow> []
                 | Some t \<Rightarrow> if t = [] then [] else [(''type'', t)]))) rt"

text \<open>
  The metric declarations at the head of the module (\<^verbatim>\<open>define_metric\<close>): name,
  type and whether the call passes \<^verbatim>\<open>cumulative=True\<close>.
\<close>

definition defined_metrics :: "(string \<times> string option \<times> bool) list" where
  "defined_metrics =
     [(''app.cpu'', Some ''user'', True),
      (''app.cpu'', Some ''system'', True),
      (''app.uptime'', None, True),
      (''app.threads'', None, False),
      (''app.nice'', None, False),
      (''app.mem.bytes'', Some ''vmsize'', False),
      (''app.mem.bytes'', Some ''resident'', False),
      (''app.mem.bytes'', Some ''peak_vmsize'', False),
      (''app.mem.bytes'', Some ''peak_resident'', False),
      (''app.disk.bytes'', Some ''read'', True),
      (''app.disk.requests'', Some ''read'', True),
      (''app.disk.bytes'', Some ''write'', True),
      (''app.disk.requests'', Some ''write'', True),
      (''app.io.fds'', Some ''open'', False)]"

definition declared_cumulative :: "string \<Rightarrow> bool" where
  "declared_cumulative name =
     (name \<in> set (map fst (filter (\<lambda>d. snd (snd d)) defined_metrics)))"

text \<open>
  Every value list of the history is non-empty and holds at most two values.
\<close>

definition history_ok :: "history \<Rightarrow> bool" where
  "history_ok h =
     (\<forall>ppm \<in> set h. \<forall>kvs \<in> set (snd ppm). snd kvs \<noteq> [] \<and> length (snd kvs) \<le> 2)"

text \<open>The metric keys held in the history, over all pids.\<close>

definition history_keys :: "history \<Rightarrow> metric_key list" where
  "history_keys h = concat (map (\<lambda>ppm. map fst (snd ppm)) h)"

text \<open>
  Two readings of the loops above, used in the proofs: the value list
  \<^verbatim>\<open>_record_metrics\<close> stores for a key after appending \<open>v\<close>, and the running
  total the \<^verbatim>\<open>app.cpu\<close> branch stores for a pid that is running.
\<close>

definition appended :: "process_metrics \<Rightarrow> metric_key \<Rightarrow> int \<Rightarrow> int list" where
  "appended pm k v = last2 ((case map_of pm k of None \<Rightarrow> [] | Some vs \<Rightarrow> vs) @ [v])"

definition cpu_update :: "int \<Rightarrow> int list \<Rightarrow> int" where
  "cpu_update acc vs =
     (if length vs < 2 then 0 else acc + (vs ! (length vs - 1) - vs ! (length vs - 2)))"

section \<open>BaseReader\<close>

text \<open>
  A reader holds the pid, the file pattern, the open file (\<^verbatim>\<open>None\<close> at first),
  the time of the last collection and the flag \<^verbatim>\<open>_failed\<close>. What the operating
  system and the derived class do is given by an environment: the clock, the
  formatting of the file name, \<^verbatim>\<open>open\<close>, the derived \<^verbatim>\<open>gather_sample\<close>
  (after \<^verbatim>\<open>seek(0)\<close>; when it raises, the collector as it has been updated so far
  comes with the exception) and the file's \<^verbatim>\<open>close\<close>.
\<close>

type_synonym collector = "(metric_key \<times> int) list"

datatype event =
    Stdout py_exception
  | LoggerError string string

record base_reader =
  reader_pid :: int
  file_pattern :: string
  file_handle :: "nat option"
  timestamp :: "int option"
  failed :: bool

record reader_env =
  time_now :: int
  format_path :: "string \<Rightarrow> int \<Rightarrow> string"
  open_file :: "string \<Rightarrow> py_exception + nat"
  gather :: "nat \<Rightarrow> collector \<Rightarrow> (py_exception \<times> collector) + collector option"
  close_file :: "nat \<Rightarrow> py_exception option"

text \<open>
  \<^verbatim>\<open>close\<close>: the flag is set while the file is being closed and cleared after;
  the file is forgotten in any case.
\<close>

definition close :: "reader_env \<Rightarrow> base_reader \<Rightarrow> base_reader \<times> py_exception option" where
  "close env rd =
     (case file_handle rd of
        None \<Rightarrow> (rd\<lparr>file_handle := None, failed := False\<rparr>, None)
      | Some f \<Rightarrow>
          (case close_file env f of
             None \<Rightarrow> (rd\<lparr>file_handle := None, failed := False\<rparr>, None)
           | Some e \<Rightarrow> (rd\<lparr>file_handle := None, failed := True\<rparr>, Some e)))"

text \<open>
  The block \<^verbatim>\<open>if self._file is None\<close> of \<^verbatim>\<open>run_single_cycle\<close>: only an
  \<^verbatim>\<open>IOError\<close> is caught; it is printed, the flag is set, and errno 13 and errno 2
  are reported to the logger while any other errno is raised again.
\<close>

definition open_block ::
  "reader_env \<Rightarrow> string \<Rightarrow> base_reader \<Rightarrow> base_reader \<times> event list \<times> py_exception option" where
  "open_block env filename rd =
     (case file_handle rd of
        Some f \<Rightarrow> (rd, [], None)
      | None \<Rightarrow>
          (case open_file env filename of
             Inr f \<Rightarrow> (rd\<lparr>file_handle := Some f\<rparr>, [], None)
           | Inl (IOError errno) \<Rightarrow>
               (if errno = 13 then
                  (rd\<lparr>failed := True\<rparr>,
                   [Stdout (IOError errno),
                    LoggerError ''The agent does not have permission to read %s.  Maybe you should run it as root.''
                      filename], None)
                else if errno = 2 then
                  (rd\<lparr>failed := True\<rparr>,
                   [Stdout (IOError errno),
                    LoggerError ''The agent cannot read %s.  Your system may not support that proc file type''
                      filename], None)
                else (rd\<lparr>failed := True\<rparr>, [Stdout (IOError errno)], Some (IOError errno)))
           | Inl e \<Rightarrow> (rd, [], Some e)))"

text \<open>
  The block \<^verbatim>\<open>if self._file is not None\<close> and the final \<^verbatim>\<open>return collector\<close>.
\<close>

definition read_block ::
  "reader_env \<Rightarrow> string \<Rightarrow> base_reader \<Rightarrow> collector \<Rightarrow>
     base_reader \<times> event list \<times> (py_exception + collector option)" where
  "read_block env filename rd collector =
     (case file_handle rd of
        None \<Rightarrow> (rd, [], Inr (Some collector))
      | Some f \<Rightarrow>
          (case gather env f collector of
             Inr result \<Rightarrow> (rd, [], Inr result)
           | Inl (IOError errno, collector') \<Rightarrow>
               (case close env rd of
                  (rd', None) \<Rightarrow>
                    (rd', [Stdout (IOError errno),
                           LoggerError ''Error gathering sample for file: '' filename],
                     Inr (Some collector'))
                | (rd', Some e) \<Rightarrow>
                    (rd', [Stdout (IOError errno),
                           LoggerError ''Error gathering sample for file: '' filename],
                     Inl e))
           | Inl (e, collector') \<Rightarrow> (rd, [], Inl e)))"

text \<open>
  \<^verbatim>\<open>run_single_cycle\<close>. The result is the reader afterwards, the events in
  order, and either the exception raised or the value returned, where \<open>None\<close> is
  Python's \<^verbatim>\<open>None\<close>. A collector that is \<^verbatim>\<open>None\<close> or empty is replaced by a
  new empty dictionary.
\<close>

definition run_single_cycle ::
  "reader_env \<Rightarrow> base_reader \<Rightarrow> collector option \<Rightarrow>
     base_reader \<times> event list \<times> (py_exception + collector option)" where
  "run_single_cycle env rd0 collector =
     (let rd = rd0\<lparr>timestamp := Some (time_now env)\<rparr> in
      if failed rd then (rd, [], Inr None)
      else
        let filename = format_path env (file_pattern rd) (reader_pid rd);
            collector1 = (case collector of None \<Rightarrow> [] | Some c \<Rightarrow> c)
        in case open_block env filename rd of
             (rd1, events, Some e) \<Rightarrow> (rd1, events, Inl e)
           | (rd1, events, None) \<Rightarrow>
               (case read_block env filename rd1 collector1 of
                  (rd2, events', result) \<Rightarrow> (rd2, events @ events', result)))"

section \<open>Process selection\<close>

text \<open>
  \<^verbatim>\<open>ProcessTracker.__is_running\<close>: \<^verbatim>\<open>os.kill(pid, 0)\<close> is given by \<open>os_kill\<close>,
  \<open>None\<close> when the call returns. Only an \<^verbatim>\<open>OSError\<close> is caught.
\<close>

definition is_running :: "(int \<Rightarrow> py_exception option) \<Rightarrow> int \<Rightarrow> py_exception + bool" where
  "is_running os_kill pid =
     (case os_kill pid of
        None \<Rightarrow> Inr True
      | Some (OSError errno) \<Rightarrow> Inr (errno \<noteq> 3)
      | Some e \<Rightarrow> Inl e)"

text \<open>
  The configuration \<^verbatim>\<open>_initialize\<close> stores: the command line pattern and the set
  of target pids. The environment of a selection: the outcome of spawning
  \<^verbatim>\<open>ps ax -o pid,command\<close> and reading its lines, \<^verbatim>\<open>re.search\<close> (whether it
  finds a match) and \<^verbatim>\<open>int\<close> on a string.
\<close>

record monitor_config =
  commandline_matcher :: "string option"
  target_pids :: "int set"

record select_env =
  popen_ps :: "py_exception + string list"
  re_search :: "string \<Rightarrow> string \<Rightarrow> py_exception + bool"
  int_of_string :: "string \<Rightarrow> py_exception + int"

definition is_space :: "char \<Rightarrow> bool" where
  "is_space c = (c \<in> set [CHR '' '', CHR 0x09, CHR 0x0A, CHR 0x0B, CHR 0x0C, CHR 0x0D])"

definition py_strip :: "string \<Rightarrow> string" where
  "py_strip s = rev (dropWhile is_space (rev (dropWhile is_space s)))"

definition py_find :: "string \<Rightarrow> char \<Rightarrow> int" where
  "py_find s c = (if c \<in> set s then int (length (takeWhile (\<lambda>x. x \<noteq> c) s)) else - 1)"

definition lower_char :: "char \<Rightarrow> char" where
  "lower_char c =
     (case map_of (zip ''ABCDEFGHIJKLMNOPQRSTUVWXYZ'' ''abcdefghijklmnopqrstuvwxyz'') c of
        None \<Rightarrow> c
      | Some l \<Rightarrow> l)"

definition py_lower :: "string \<Rightarrow> string" where
  "py_lower s = map lower_char s"

text \<open>
  The two parts the loop cuts a stripped line into at its first space: the pid
  field \<^verbatim>\<open>line[:line.find(' ')]\<close> and the command line after it.
\<close>

definition pid_field :: "string \<Rightarrow> string" where
  "pid_field line0 =
     take (nat (py_find (py_strip line0) (CHR '' ''))) (py_strip line0)"

definition command_field :: "string \<Rightarrow> string" where
  "command_field line0 =
     drop (nat (py_find (py_strip line0) (CHR '' '') + 1)) (py_strip line0)"

text \<open>The body of the loop over the lines of the listing.\<close>

definition match_line ::
  "select_env \<Rightarrow> string \<Rightarrow> int set \<Rightarrow> string \<Rightarrow> py_exception + int set" where
  "match_line env matcher matching_pids line0 =
     (let line = py_strip line0 in
      if py_find line (CHR '' '') > 0 then
        let pid = take (nat (py_find line (CHR '' ''))) line in
        if py_lower pid = ''pid'' then Inr matching_pids
        else
          (case int_of_string env pid of
             Inl e \<Rightarrow> Inl e
           | Inr p \<Rightarrow>
               (case re_search env matcher (drop (nat (py_find line (CHR '' '') + 1)) line) of
                  Inl e \<Rightarrow> Inl e
                | Inr found \<Rightarrow> Inr (if found then insert p matching_pids else matching_pids)))
      else Inr matching_pids)"

fun match_lines ::
  "select_env \<Rightarrow> string \<Rightarrow> string list \<Rightarrow> int set \<Rightarrow> py_exception + int set" where
  "match_lines env matcher [] matching_pids = Inr matching_pids"
| "match_lines env matcher (line # rest) matching_pids =
     (case match_line env matcher matching_pids line of
        Inl e \<Rightarrow> Inl e
      | Inr matching_pids' \<Rightarrow> match_lines env matcher rest matching_pids')"

text \<open>
  \<^verbatim>\<open>__select_processes\<close>. With a truthy pattern the listing is spawned inside
  \<^verbatim>\<open>try ... finally\<close> with no \<^verbatim>\<open>except\<close> clause. Otherwise the target pids are
  returned; the comparison of that set with the string \<^verbatim>\<open>'$$'\<close> is never true.
\<close>

definition select_processes :: "select_env \<Rightarrow> monitor_config \<Rightarrow> py_exception + int set" where
  "select_processes env cfg =
     (case commandline_matcher cfg of
        None \<Rightarrow> Inr (target_pids cfg)
      | Some m \<Rightarrow>
          if m = [] then Inr (target_pids cfg)
          else
            (case popen_ps env of
               Inl e \<Rightarrow> Inl e
             | Inr lines \<Rightarrow> match_lines env m lines {}))"

section \<open>Dictionaries as association lists\<close>

lemma map_of_dict_set: "map_of (dict_set d k v) = (map_of d)(k \<mapsto> v)"
  by (induction d) (auto simp: fun_eq_iff)

lemma keys_dict_set: "fst ` set (dict_set d k v) = insert k (fst ` set d)"
proof -
  have "fst ` set (dict_set d k v) = dom (map_of (dict_set d k v))"
    by (simp add: dom_map_of_conv_image_fst)
  also have "\<dots> = insert k (dom (map_of d))"
    by (simp add: map_of_dict_set)
  finally show ?thesis by (simp add: dom_map_of_conv_image_fst)
qed

lemma set_dict_set: "set (dict_set d k v) \<subseteq> insert (k, v) (set d)"
  by (induction d) (auto split: if_splits)

lemma distinct_dict_set: "distinct (map fst d) \<Longrightarrow> distinct (map fst (dict_set d k v))"
proof (induction d)
  case Nil
  then show ?case by simp
next
  case (Cons p d)
  have "fst ` set (dict_set d k v) = insert k (fst ` set d)" by (rule keys_dict_set)
  with Cons show ?case by (cases p) auto
qed

lemma length_last2: "length (last2 (vs @ [v])) \<le> 2" "last2 (vs @ [v]) \<noteq> []"
  by (auto simp: last2_def)

lemma history_ok_record_metric: 
  assumes "history_ok h" shows "history_ok (record_metric h pid kv)"
proof -
  obtain k v where kv: "kv = (k, v)" by (cases kv)
  define pm where "pm = (case map_of h pid of None \<Rightarrow> [] | Some pm \<Rightarrow> pm)"
  define vs where "vs = (case map_of pm k of None \<Rightarrow> [] | Some vs \<Rightarrow> vs)"
  have pm_ok: "\<forall>kvs \<in> set pm. snd kvs \<noteq> [] \<and> length (snd kvs) \<le> 2"
  proof (cases "map_of h pid")
    case None
    then show ?thesis by (simp add: pm_def)
  next
    case (Some a)
    then have "(pid, a) \<in> set h" by (rule map_of_SomeD)
    with assms Some show ?thesis by (auto simp: pm_def history_ok_def)
  qed
  have pm'_ok: "\<forall>kvs \<in> set (dict_set pm k (last2 (vs @ [v]))). snd kvs \<noteq> [] \<and> length (snd kvs) \<le> 2"
    using pm_ok set_dict_set [of pm k "last2 (vs @ [v])"] length_last2 [of vs v] by auto
  have "record_metric h pid kv = dict_set h pid (dict_set pm k (last2 (vs @ [v])))"
    by (simp add: record_metric_def kv pm_def vs_def Let_def)
  moreover have "history_ok (dict_set h pid (dict_set pm k (last2 (vs @ [v]))))"
    unfolding history_ok_def
  proof
    fix ppm assume "ppm \<in> set (dict_set h pid (dict_set pm k (last2 (vs @ [v]))))"
    then have "ppm = (pid, dict_set pm k (last2 (vs @ [v]))) \<or> ppm \<in> set h"
      using set_dict_set [of h pid] by auto
    then show "\<forall>kvs\<in>set (snd ppm). snd kvs \<noteq> [] \<and> length (snd kvs) \<le> 2"
      using pm'_ok assms by (auto simp: history_ok_def)
  qed
  ultimately show ?thesis by simp
qed

lemma history_ok_record_metrics: "history_ok h \<Longrightarrow> history_ok (record_metrics h pid s)"
  unfolding record_metrics_def
  by (induction s arbitrary: h) (simp_all add: history_ok_record_metric)

lemma history_ok_record_all: "history_ok h \<Longrightarrow> history_ok (record_all h ts)"
  unfolding record_all_def
  by (induction ts arbitrary: h) (simp_all add: history_ok_record_metrics)

lemma history_ok_purge: "history_ok h \<Longrightarrow> history_ok (purge r h)"
  unfolding history_ok_def purge_def by (metis filter_is_subset subsetD)

lemma map_of_rt_init: "map_of (rt_init rt k) = (map_of rt)(k \<mapsto> rt_value rt k)"
  by (auto simp: rt_init_def rt_value_def map_of_dict_set fun_eq_iff split: option.splits)

lemma dict_add_rt_init:
  "dict_add (rt_init rt k) k x = Inr (dict_set (rt_init rt k) k (rt_value rt k + x))"
  by (simp add: dict_add_def map_of_rt_init)

lemma calc_entry_total:
  assumes "snd kvs \<noteq> []" shows "\<exists>rt'. calc_entry r pid rt kvs = Inr rt'"
  using assms by (cases kvs) (simp add: calc_entry_def dict_add_rt_init Let_def)

lemma calc_process_total:
  "\<forall>kvs \<in> set pm. snd kvs \<noteq> [] \<Longrightarrow> \<exists>rt'. calc_process r pid pm rt = Inr rt'"
proof (induction pm arbitrary: rt)
  case Nil
  then show ?case by simp
next
  case (Cons kvs pm)
  then obtain rt1 where "calc_entry r pid rt kvs = Inr rt1"
    using calc_entry_total [of kvs r pid rt] by auto
  with Cons show ?case by simp
qed

lemma calc_history_total:
  "history_ok h \<Longrightarrow> \<exists>rt'. calc_history r h rt = Inr rt'"
proof (induction h arbitrary: rt)
  case Nil
  then show ?case by simp
next
  case (Cons ppm h)
  then have "\<forall>kvs \<in> set (snd ppm). snd kvs \<noteq> []" by (simp add: history_ok_def)
  then obtain rt1 where "calc_process r (fst ppm) (snd ppm) rt = Inr rt1"
    using calc_process_total by blast
  moreover from Cons.prems have "history_ok h" by (simp add: history_ok_def)
  ultimately show ?case using Cons.IH by simp
qed

lemma gather_sample_ok:
  assumes "history_ok (metrics_history st)"
  shows "\<exists>st'. gather_sample ts st = Inr st' \<and> history_ok (metrics_history st')"
proof -
  let ?h = "record_all (metrics_history st) ts"
  have ok: "history_ok ?h" using assms by (rule history_ok_record_all)
  then obtain rt' where "calc_history (map fst ts) ?h (reset_absolute_metrics ?h (running_total_metrics st)) = Inr rt'"
    using calc_history_total by blast
  then show ?thesis using ok
    by (simp add: gather_sample_def calculate_running_total_def Let_def history_ok_purge)
qed

lemma run_cycles_ok:
  "history_ok (metrics_history st) \<Longrightarrow>
   \<exists>st'. run_cycles cs st = Inr st' \<and> history_ok (metrics_history st')"
proof (induction cs arbitrary: st)
  case Nil
  then show ?case by simp
next
  case (Cons ts cs)
  then obtain st1 where "gather_sample ts st = Inr st1" "history_ok (metrics_history st1)"
    using gather_sample_ok by blast
  then show ?case using Cons.IH by simp
qed

lemma history_ok_lookup:
  assumes "history_ok h" "map_of h pid = Some pm" "map_of pm k = Some vs"
  shows "vs \<noteq> [] \<and> length vs \<le> 2"
proof -
  from assms(2) have "(pid, pm) \<in> set h" by (rule map_of_SomeD)
  moreover from assms(3) have "(k, vs) \<in> set pm" by (rule map_of_SomeD)
  ultimately show ?thesis using assms(1) by (force simp: history_ok_def)
qed

section \<open>The history keeps two samples\<close>

text \<open>
  Claim C9. Starting from the state \<^verbatim>\<open>_initialize\<close> builds, any number of cycles
  with arbitrary trackers and samples runs without an exception, and afterwards
  the value list stored in the history for any pid and any metric key holds at
  most two entries.
\<close>

theorem history_at_most_two_entries:
  "\<exists>st. run_cycles cycles initial_state = Inr st \<and>
     (\<forall>pid pm k vs. map_of (metrics_history st) pid = Some pm \<longrightarrow> map_of pm k = Some vs
        \<longrightarrow> length vs \<le> 2)"
proof -
  have "history_ok (metrics_history initial_state)"
    by (simp add: initial_state_def history_ok_def)
  then obtain st where st: "run_cycles cycles initial_state = Inr st" "history_ok (metrics_history st)"
    using run_cycles_ok by blast
  then show ?thesis using history_ok_lookup by blast
qed

theorem history_at_most_two_entries_witness:
  "run_cycles
     [[(1, [((''app.cpu'', Some ''user''), 100)])],
      [(1, [((''app.cpu'', Some ''user''), 150)])],
      [(1, [((''app.cpu'', Some ''user''), 220)])]] initial_state =
   Inr \<lparr>metrics_history = [(1, [((''app.cpu'', Some ''user''), [150, 220])])],
        running_total_metrics = [((''app.cpu'', Some ''user''), 120)]\<rparr> \<and>
   map_of [(1::int, [((''app.cpu'', Some ''user''), [150, 220::int])])] 1 =
     Some [((''app.cpu'', Some ''user''), [150, 220])] \<and>
   map_of [((''app.cpu'', Some ''user''), [150, 220::int])] (''app.cpu'', Some ''user'') =
     Some [150, 220] \<and>
   length [150, 220::int] \<le> 2"
  using history_at_most_two_entries
    [of "[[(1, [((''app.cpu'', Some ''user''), 100)])],
          [(1, [((''app.cpu'', Some ''user''), 150)])],
          [(1, [((''app.cpu'', Some ''user''), 220)])]]"]
  by (simp add: initial_state_def gather_sample_def record_all_def record_metrics_def
      record_metric_def reset_absolute_metrics_def reset_entry_def
      calculate_running_total_def calc_entry_def rt_init_def dict_add_def last2_def
      purge_def)

section \<open>Entries of the running total\<close>

lemma map_of_dict_add:
  "dict_add d k x = Inr d' \<Longrightarrow> map_of d' = (map_of d)(k \<mapsto> the (map_of d k) + x)"
  by (auto simp: dict_add_def map_of_dict_set split: option.splits)

lemma has_key_calc_entry:
  assumes "calc_entry r pid rt kvs = Inr rt'" "map_of rt k \<noteq> None"
  shows "map_of rt' k \<noteq> None"
proof -
  obtain k' vs where kvs: "kvs = (k', vs)" by (cases kvs)
  have "map_of (rt_init rt k') k \<noteq> None"
    using assms(2) by (simp add: map_of_rt_init)
  then show ?thesis
    using assms(1) map_of_dict_add [of "rt_init rt k'" k' _ rt']
    by (auto simp: kvs calc_entry_def Let_def map_of_dict_set split: if_splits)
qed

lemma has_key_calc_process:
  "calc_process r pid pm rt = Inr rt' \<Longrightarrow> map_of rt k \<noteq> None \<Longrightarrow> map_of rt' k \<noteq> None"
proof (induction pm arbitrary: rt)
  case Nil
  then show ?case by simp
next
  case (Cons kvs pm)
  then obtain rt1 where 1: "calc_entry r pid rt kvs = Inr rt1" "calc_process r pid pm rt1 = Inr rt'"
    by (auto split: sum.splits)
  from has_key_calc_entry [OF 1(1) Cons.prems(2)] Cons.IH [OF 1(2)] show ?case by blast
qed

lemma has_key_calc_history:
  "calc_history r h rt = Inr rt' \<Longrightarrow> map_of rt k \<noteq> None \<Longrightarrow> map_of rt' k \<noteq> None"
proof (induction h arbitrary: rt)
  case Nil
  then show ?case by simp
next
  case (Cons ppm h)
  then obtain rt1 where 1: "calc_process r (fst ppm) (snd ppm) rt = Inr rt1" "calc_history r h rt1 = Inr rt'"
    by (auto split: sum.splits)
  from has_key_calc_process [OF 1(1) Cons.prems(2)] Cons.IH [OF 1(2)] show ?case by blast
qed

lemma map_of_reset_entry:
  "map_of (reset_entry rt kvs) k =
     (if k = fst kvs \<and> fst k \<noteq> ''app.cpu'' then Some 0 else map_of rt k)"
  by (cases kvs) (auto simp: reset_entry_def map_of_dict_set)

lemma map_of_reset_process:
  "map_of (foldl reset_entry rt pm) k =
     (if k \<in> fst ` set pm \<and> fst k \<noteq> ''app.cpu'' then Some 0 else map_of rt k)"
  by (induction pm arbitrary: rt) (auto simp: map_of_reset_entry)

lemma map_of_reset_absolute_metrics:
  "map_of (reset_absolute_metrics h rt) k =
     (if k \<in> set (history_keys h) \<and> fst k \<noteq> ''app.cpu'' then Some 0 else map_of rt k)"
  unfolding reset_absolute_metrics_def history_keys_def
  by (induction h arbitrary: rt) (auto simp: map_of_reset_process)

lemma has_key_gather_sample:
  assumes "gather_sample ts st = Inr st'" "map_of (running_total_metrics st) k \<noteq> None"
  shows "map_of (running_total_metrics st') k \<noteq> None"
proof -
  let ?h = "record_all (metrics_history st) ts"
  let ?rt = "reset_absolute_metrics ?h (running_total_metrics st)"
  from assms(1) obtain rt' where 1: "calc_history (map fst ts) ?h ?rt = Inr rt'"
    and 2: "running_total_metrics st' = rt'"
    by (auto simp: gather_sample_def calculate_running_total_def Let_def split: sum.splits)
  have "map_of ?rt k \<noteq> None"
    using assms(2) by (simp add: map_of_reset_absolute_metrics)
  from has_key_calc_history [OF 1 this] 2 show ?thesis by simp
qed

lemma gather_sample_idle:
  "metrics_history st = [] \<Longrightarrow> gather_sample [] st = Inr st"
  by (simp add: gather_sample_def record_all_def reset_absolute_metrics_def
      calculate_running_total_def purge_def)

lemma run_cycles_idle:
  "metrics_history st = [] \<Longrightarrow> run_cycles (replicate n []) st = Inr st"
  by (induction n) (simp_all add: gather_sample_idle)

lemma gather_sample_none_selected:
  "gather_sample [] st = Inr st' \<Longrightarrow> metrics_history st' = []"
  by (auto simp: gather_sample_def record_all_def calculate_running_total_def purge_def
      Let_def split: sum.splits)

lemma print_metrics_emits:
  assumes "map_of rt k = Some v"
  shows "\<exists>extra. (fst k, v, extra) \<in> set (print_metrics mid rt)"
proof -
  from assms have "(k, v) \<in> set rt" by (rule map_of_SomeD)
  then show ?thesis by (force simp: print_metrics_def)
qed

text \<open>
  Claim C10. An entry of the running total is never removed by a cycle: a key
  that has an entry before a cycle has one after it, and \<^verbatim>\<open>print_metrics\<close>
  emits it. A cycle with no selected pid leaves the history empty, and from a
  state with empty history every further cycle with no selected pid returns the
  state as it is, so every key, absolute ones included, keeps being emitted with
  the value it had.
\<close>

theorem running_total_entries_persist:
  "(gather_sample trackers st = Inr st' \<longrightarrow> map_of (running_total_metrics st) k \<noteq> None \<longrightarrow>
      (\<exists>v extra. map_of (running_total_metrics st') k = Some v \<and>
         (fst k, v, extra) \<in> set (print_metrics monitor_id (running_total_metrics st')))) \<and>
   (gather_sample [] st = Inr st' \<longrightarrow> metrics_history st' = []) \<and>
   (metrics_history st = [] \<longrightarrow> run_cycles (replicate n []) st = Inr st)"
proof (intro conjI impI)
  assume "gather_sample trackers st = Inr st'" "map_of (running_total_metrics st) k \<noteq> None"
  then have "map_of (running_total_metrics st') k \<noteq> None" by (rule has_key_gather_sample)
  then obtain v where "map_of (running_total_metrics st') k = Some v" by blast
  with print_metrics_emits [OF this, of monitor_id]
  show "\<exists>v extra. map_of (running_total_metrics st') k = Some v \<and>
         (fst k, v, extra) \<in> set (print_metrics monitor_id (running_total_metrics st'))"
    by blast
next
  assume "gather_sample [] st = Inr st'"
  then show "metrics_history st' = []" by (rule gather_sample_none_selected)
next
  assume "metrics_history st = []"
  then show "run_cycles (replicate n []) st = Inr st" by (rule run_cycles_idle)
qed

theorem running_total_entries_persist_witness:
  "gather_sample []
     \<lparr>metrics_history = [(1, [((''app.threads'', None), [3])])],
      running_total_metrics = [((''app.threads'', None), 3)]\<rparr> =
   Inr \<lparr>metrics_history = [], running_total_metrics = [((''app.threads'', None), 3)]\<rparr> \<and>
   map_of [((''app.threads'', None), 3::int)] (''app.threads'', None) = Some 3 \<and>
   (''app.threads'', 3, [(''app'', ''tomcat'')]) \<in>
     set (print_metrics ''tomcat'' [((''app.threads'', None), 3)]) \<and>
   run_cycles [[], []]
     \<lparr>metrics_history = [], running_total_metrics = [((''app.threads'', None), 3)]\<rparr> =
   Inr \<lparr>metrics_history = [], running_total_metrics = [((''app.threads'', None), 3)]\<rparr>"
  using running_total_entries_persist
    [of "[]" "\<lparr>metrics_history = [(1, [((''app.threads'', None), [3])])],
               running_total_metrics = [((''app.threads'', None), 3)]\<rparr>"
        "\<lparr>metrics_history = [], running_total_metrics = [((''app.threads'', None), 3)]\<rparr>"
        "(''app.threads'', None)" "''tomcat''" "Suc (Suc 0)"]
    running_total_entries_persist
    [of "[]" "\<lparr>metrics_history = [], running_total_metrics = [((''app.threads'', None), 3)]\<rparr>"
        "\<lparr>metrics_history = [], running_total_metrics = [((''app.threads'', None), 3)]\<rparr>"
        "(''app.threads'', None)" "''tomcat''" "Suc (Suc 0)"]
  by (simp add: gather_sample_def record_all_def reset_absolute_metrics_def reset_entry_def
      calculate_running_total_def calc_entry_def rt_init_def dict_add_def purge_def
      print_metrics_def)

section \<open>The reset step\<close>

text \<open>
  Claim C2, as the code has it. \<^verbatim>\<open>_reset_absolute_metrics\<close> sets to zero the
  running total of every key that is held in the history of some pid and whose
  metric is not declared cumulative; it leaves the entry of every \<^verbatim>\<open>app.cpu\<close>
  key as it is, and the entry of every key that no history holds.
\<close>

theorem reset_absolute_metrics_effect:
  "(k \<in> set (history_keys h) \<longrightarrow> \<not> declared_cumulative (fst k) \<longrightarrow>
      map_of (reset_absolute_metrics h rt) k = Some 0) \<and>
   (fst k = ''app.cpu'' \<longrightarrow> map_of (reset_absolute_metrics h rt) k = map_of rt k) \<and>
   (k \<notin> set (history_keys h) \<longrightarrow> map_of (reset_absolute_metrics h rt) k = map_of rt k)"
proof -
  have "\<not> declared_cumulative (fst k) \<Longrightarrow> fst k \<noteq> ''app.cpu''"
    by (auto simp: declared_cumulative_def defined_metrics_def)
  then show ?thesis by (auto simp: map_of_reset_absolute_metrics)
qed

theorem reset_absolute_metrics_effect_witness:
  "(''app.threads'', None) \<in> set (history_keys [(1, [((''app.threads'', None), [4]), ((''app.cpu'', Some ''user''), [100, 150])])]) \<and>
   \<not> declared_cumulative ''app.threads'' \<and>
   map_of (reset_absolute_metrics [(1, [((''app.threads'', None), [4]), ((''app.cpu'', Some ''user''), [100, 150])])]
      [((''app.threads'', None), 4), ((''app.cpu'', Some ''user''), 50), ((''app.nice'', None), 9)]) (''app.threads'', None) = Some 0 \<and>
   map_of (reset_absolute_metrics [(1, [((''app.threads'', None), [4]), ((''app.cpu'', Some ''user''), [100, 150])])]
      [((''app.threads'', None), 4), ((''app.cpu'', Some ''user''), 50), ((''app.nice'', None), 9)]) (''app.cpu'', Some ''user'') = Some 50 \<and>
   (''app.nice'', None) \<notin> set (history_keys [(1, [((''app.threads'', None), [4]), ((''app.cpu'', Some ''user''), [100, 150])])]) \<and>
   map_of (reset_absolute_metrics [(1, [((''app.threads'', None), [4]), ((''app.cpu'', Some ''user''), [100, 150])])]
      [((''app.threads'', None), 4), ((''app.cpu'', Some ''user''), 50), ((''app.nice'', None), 9)]) (''app.nice'', None) = Some 9"
  using reset_absolute_metrics_effect
     [of "(''app.threads'', None)" "[(1, [((''app.threads'', None), [4]), ((''app.cpu'', Some ''user''), [100, 150])])]"
         "[((''app.threads'', None), 4), ((''app.cpu'', Some ''user''), 50), ((''app.nice'', None), 9)]"]
   reset_absolute_metrics_effect
     [of "(''app.cpu'', Some ''user'')" "[(1, [((''app.threads'', None), [4]), ((''app.cpu'', Some ''user''), [100, 150])])]"
         "[((''app.threads'', None), 4), ((''app.cpu'', Some ''user''), 50), ((''app.nice'', None), 9)]"]
   reset_absolute_metrics_effect
     [of "(''app.nice'', None)" "[(1, [((''app.threads'', None), [4]), ((''app.cpu'', Some ''user''), [100, 150])])]"
         "[((''app.threads'', None), 4), ((''app.cpu'', Some ''user''), 50), ((''app.nice'', None), 9)]"]
  by (simp add: history_keys_def declared_cumulative_def defined_metrics_def)

text \<open>
  The claim as stated fails on two sides: an absolute key that no history holds
  (\<^verbatim>\<open>app.io.fds\<close> below, left by a pid that has been purged) keeps its total,
  and the key of a metric declared cumulative other than \<^verbatim>\<open>app.cpu\<close>
  (\<^verbatim>\<open>app.disk.bytes\<close> below) is set to zero.
\<close>

theorem reset_absolute_metrics_counterexample:
  "\<not> declared_cumulative ''app.io.fds'' \<and>
   map_of (reset_absolute_metrics [(1, [((''app.disk.bytes'', Some ''read''), [900, 950])])]
             [((''app.io.fds'', Some ''open''), 5), ((''app.disk.bytes'', Some ''read''), 900)])
     (''app.io.fds'', Some ''open'') = Some 5 \<and>
   declared_cumulative ''app.disk.bytes'' \<and>
   map_of [((''app.io.fds'', Some ''open''), 5::int), ((''app.disk.bytes'', Some ''read''), 900)]
     (''app.disk.bytes'', Some ''read'') = Some 900 \<and>
   map_of (reset_absolute_metrics [(1, [((''app.disk.bytes'', Some ''read''), [900, 950])])]
             [((''app.io.fds'', Some ''open''), 5), ((''app.disk.bytes'', Some ''read''), 900)])
     (''app.disk.bytes'', Some ''read'') = Some 0"
  by (simp add: declared_cumulative_def defined_metrics_def reset_absolute_metrics_def
      reset_entry_def)

section \<open>A pid selected in consecutive cycles\<close>

lemma map_of_calc_entry_other:
  assumes "calc_entry r pid rt kvs = Inr rt'" "k \<noteq> fst kvs"
  shows "map_of rt' k = map_of rt k"
proof -
  obtain k' vs where kvs: "kvs = (k', vs)" by (cases kvs)
  have "map_of (rt_init rt k') k = map_of rt k"
    using assms(2) by (simp add: kvs map_of_rt_init)
  then show ?thesis
    using assms map_of_dict_add [of "rt_init rt k'" k' _ rt']
    by (auto simp: kvs calc_entry_def Let_def map_of_dict_set split: if_splits)
qed

lemma map_of_calc_process_other:
  "calc_process r pid pm rt = Inr rt' \<Longrightarrow> k \<notin> fst ` set pm \<Longrightarrow> map_of rt' k = map_of rt k"
proof (induction pm arbitrary: rt)
  case Nil
  then show ?case by simp
next
  case (Cons kvs pm)
  then obtain rt1 where 1: "calc_entry r pid rt kvs = Inr rt1" "calc_process r pid pm rt1 = Inr rt'"
    by (auto split: sum.splits)
  from Cons.prems(2) have "k \<noteq> fst kvs" "k \<notin> fst ` set pm" by auto
  with map_of_calc_entry_other [OF 1(1)] Cons.IH [OF 1(2)] show ?case by simp
qed

lemma map_of_calc_entry_running:
  assumes "calc_entry r pid rt (k, vs) = Inr rt'" "fst k = ''app.cpu''" "pid \<in> set r"
  shows "map_of rt' k = Some (cpu_update (rt_value rt k) vs)"
  using assms
  by (auto simp: calc_entry_def Let_def dict_add_rt_init map_of_dict_set cpu_update_def
      split: if_splits)

lemma map_of_calc_process_running:
  assumes "calc_process r pid pm rt = Inr rt'" "distinct (map fst pm)" "map_of pm k = Some vs"
    "fst k = ''app.cpu''" "pid \<in> set r"
  shows "map_of rt' k = Some (cpu_update (rt_value rt k) vs)"
  using assms(1-3)
proof (induction pm arbitrary: rt)
  case Nil
  then show ?case by simp
next
  case (Cons kvs pm)
  then obtain rt1 where 1: "calc_entry r pid rt kvs = Inr rt1" "calc_process r pid pm rt1 = Inr rt'"
    by (auto split: sum.splits)
  show ?case
  proof (cases "fst kvs = k")
    case True
    with Cons.prems(3) have kvs: "kvs = (k, vs)" by (cases kvs) simp
    from Cons.prems(2) True have "k \<notin> fst ` set pm" by auto
    from map_of_calc_process_other [OF 1(2) this]
      map_of_calc_entry_running [OF 1(1) [unfolded kvs] assms(4,5)]
    show ?thesis by simp
  next
    case False
    then have "map_of rt1 k = map_of rt k"
      using map_of_calc_entry_other [OF 1(1), of k] by auto
    then have "rt_value rt1 k = rt_value rt k" by (simp add: rt_value_def)
    moreover from False Cons.prems(3) have "map_of pm k = Some vs" by (cases kvs) auto
    moreover from Cons.prems(2) have "distinct (map fst pm)" by simp
    ultimately show ?thesis using Cons.IH [OF 1(2)] by simp
  qed
qed

lemma record_metric_single:
  "record_metric [(p, pm)] p (k, v) = [(p, dict_set pm k (appended pm k v))]"
  by (simp add: record_metric_def appended_def Let_def)

lemma record_metric_first:
  "record_metric [] p kv = record_metric [(p, [])] p kv"
  by (cases kv) (simp add: record_metric_def Let_def)

lemma record_metrics_first:
  "s \<noteq> [] \<Longrightarrow> record_metrics [] p s = record_metrics [(p, [])] p s"
  by (cases s) (simp_all add: record_metrics_def record_metric_first)

lemma record_metrics_single:
  assumes "distinct (map fst s)" "distinct (map fst pm)"
  shows "\<exists>pm'. record_metrics [(p, pm)] p s = [(p, pm')] \<and> distinct (map fst pm') \<and>
           (\<forall>k. map_of pm' k =
                  (case map_of s k of None \<Rightarrow> map_of pm k | Some v \<Rightarrow> Some (appended pm k v)))"
  using assms
proof (induction s arbitrary: pm)
  case Nil
  then show ?case by (simp add: record_metrics_def)
next
  case (Cons kv s)
  obtain k1 v1 where kv: "kv = (k1, v1)" by (cases kv)
  let ?pm1 = "dict_set pm k1 (appended pm k1 v1)"
  have d1: "distinct (map fst ?pm1)" using Cons.prems(2) by (rule distinct_dict_set)
  from Cons.prems(1) have ds: "distinct (map fst s)" and k1: "map_of s k1 = None"
    by (auto simp: kv map_of_eq_None_iff)
  from Cons.IH [OF ds d1] obtain pm' where pm':
    "record_metrics [(p, ?pm1)] p s = [(p, pm')]" "distinct (map fst pm')"
    "\<forall>k. map_of pm' k =
         (case map_of s k of None \<Rightarrow> map_of ?pm1 k | Some v \<Rightarrow> Some (appended ?pm1 k v))"
    by blast
  have "record_metrics [(p, pm)] p (kv # s) = record_metrics [(p, ?pm1)] p s"
    by (simp add: record_metrics_def kv record_metric_single)
  moreover have "map_of pm' k =
      (case map_of (kv # s) k of None \<Rightarrow> map_of pm k | Some v \<Rightarrow> Some (appended pm k v))" for k
  proof (cases "k = k1")
    case True
    then show ?thesis using pm'(3) [rule_format, of k1] k1 by (simp add: kv map_of_dict_set)
  next
    case False
    then have "appended ?pm1 k v = appended pm k v" for v
      by (simp add: appended_def map_of_dict_set)
    with False show ?thesis using pm'(3) [rule_format, of k]
      by (simp add: kv map_of_dict_set split: option.splits)
  qed
  ultimately show ?case using pm'(1,2) by auto
qed

lemma gather_sample_single:
  assumes h: "metrics_history st = [(p, pm)]" and dpm: "distinct (map fst pm)"
    and ok: "history_ok [(p, pm)]" and ds: "distinct (map fst s)"
    and v: "map_of s k = Some v" and cpu: "fst k = ''app.cpu''"
  shows "\<exists>st' pm'. gather_sample [(p, s)] st = Inr st' \<and> metrics_history st' = [(p, pm')] \<and>
           distinct (map fst pm') \<and> history_ok [(p, pm')] \<and>
           map_of pm' k = Some (appended pm k v) \<and>
           map_of (running_total_metrics st') k =
             Some (cpu_update (rt_value (running_total_metrics st) k) (appended pm k v))"
proof -
  from record_metrics_single [OF ds dpm, of p] obtain pm' where pm':
    "record_metrics [(p, pm)] p s = [(p, pm')]" "distinct (map fst pm')"
    "\<forall>k. map_of pm' k =
         (case map_of s k of None \<Rightarrow> map_of pm k | Some v \<Rightarrow> Some (appended pm k v))"
    by blast
  have rec: "record_all (metrics_history st) [(p, s)] = [(p, pm')]"
    by (simp add: record_all_def h pm'(1))
  have ok': "history_ok [(p, pm')]"
    using history_ok_record_metrics [OF ok, of p s] by (simp add: pm'(1))
  have k: "map_of pm' k = Some (appended pm k v)" using pm'(3) [rule_format, of k] v by simp
  let ?rt = "reset_absolute_metrics [(p, pm')] (running_total_metrics st)"
  have "map_of ?rt k = map_of (running_total_metrics st) k"
    using cpu by (simp add: map_of_reset_absolute_metrics)
  then have val: "rt_value ?rt k = rt_value (running_total_metrics st) k"
    by (simp add: rt_value_def)
  from calc_history_total [OF ok', of "[p]" ?rt] obtain rt' where
    rt': "calc_history [p] [(p, pm')] ?rt = Inr rt'" by blast
  then have "calc_process [p] p pm' ?rt = Inr rt'" by (simp split: sum.splits)
  from map_of_calc_process_running [OF this pm'(2) k cpu] val
  have "map_of rt' k = Some (cpu_update (rt_value (running_total_metrics st) k) (appended pm k v))"
    by simp
  moreover have "gather_sample [(p, s)] st =
      Inr \<lparr>metrics_history = [(p, pm')], running_total_metrics = rt'\<rparr>"
    using rt' by (simp add: gather_sample_def rec calculate_running_total_def purge_def Let_def)
  ultimately show ?thesis using pm'(2) ok' k by simp
qed

lemma gather_sample_first:
  assumes "metrics_history st = []" "s \<noteq> []"
  shows "gather_sample [(p, s)] st = gather_sample [(p, s)] (st\<lparr>metrics_history := [(p, [])]\<rparr>)"
  using assms by (simp add: gather_sample_def record_all_def record_metrics_first)

text \<open>
  Claim C1, as the code has it. One pid is selected in three consecutive cycles,
  starting with no history and with a running total that is missing or 0 for the
  key, and its samples hold the values 100, 150 and 220 for an \<^verbatim>\<open>app.cpu\<close>
  key. The three cycles run without an exception and the running total of the
  key is then 120: the first cycle adds nothing, the second adds 50, the third
  adds 70.
\<close>

theorem three_cycles_sum_of_deltas:
  assumes "metrics_history st = []" and "fst k = ''app.cpu''"
    and "distinct (map fst s1)" "distinct (map fst s2)" "distinct (map fst s3)"
    and "map_of s1 k = Some 100" "map_of s2 k = Some 150" "map_of s3 k = Some 220"
    and "rt_value (running_total_metrics st) k = 0"
  shows "\<exists>st'. run_cycles [[(p, s1)], [(p, s2)], [(p, s3)]] st = Inr st' \<and>
           map_of (running_total_metrics st') k = Some 120"
proof -
  from assms(6) have "s1 \<noteq> []" by auto
  then have first: "gather_sample [(p, s1)] st =
      gather_sample [(p, s1)] (st\<lparr>metrics_history := [(p, [])]\<rparr>)"
    using assms(1) by (rule gather_sample_first [rotated])
  have "history_ok [(p, [])]" by (simp add: history_ok_def)
  from gather_sample_single [of "st\<lparr>metrics_history := [(p, [])]\<rparr>" p "[]" s1 k 100,
      OF _ _ this assms(3,6,2)]
  obtain st1 pm1 where 1: "gather_sample [(p, s1)] st = Inr st1"
    "metrics_history st1 = [(p, pm1)]" "distinct (map fst pm1)" "history_ok [(p, pm1)]"
    "map_of pm1 k = Some [100]" "map_of (running_total_metrics st1) k = Some 0"
    using first by (auto simp: appended_def last2_def cpu_update_def)
  from gather_sample_single [OF 1(2,3,4) assms(4,7,2)]
  obtain st2 pm2 where 2: "gather_sample [(p, s2)] st1 = Inr st2"
    "metrics_history st2 = [(p, pm2)]" "distinct (map fst pm2)" "history_ok [(p, pm2)]"
    "map_of pm2 k = Some [100, 150]" "map_of (running_total_metrics st2) k = Some 50"
    using 1(5,6) by (auto simp: appended_def last2_def cpu_update_def rt_value_def)
  from gather_sample_single [OF 2(2,3,4) assms(5,8,2)]
  obtain st3 where 3: "gather_sample [(p, s3)] st2 = Inr st3"
    "map_of (running_total_metrics st3) k = Some 120"
    using 2(5,6) by (auto simp: appended_def last2_def cpu_update_def rt_value_def)
  from 1(1) 2(1) 3 show ?thesis by simp
qed

theorem three_cycles_sum_of_deltas_witness:
  "metrics_history initial_state = [] \<and>
   rt_value (running_total_metrics initial_state) (''app.cpu'', Some ''user'') = 0 \<and>
   fst (''app.cpu'', Some ''user'') = ''app.cpu'' \<and>
   map_of [((''app.threads'', None), 4), ((''app.cpu'', Some ''user''), 100::int)]
     (''app.cpu'', Some ''user'') = Some 100 \<and>
   (\<exists>st'. run_cycles
       [[(7, [((''app.threads'', None), 4), ((''app.cpu'', Some ''user''), 100)])],
        [(7, [((''app.cpu'', Some ''user''), 150), ((''app.threads'', None), 4)])],
        [(7, [((''app.cpu'', Some ''user''), 220)])]] initial_state = Inr st' \<and>
      map_of (running_total_metrics st') (''app.cpu'', Some ''user'') = Some 120)"
  using three_cycles_sum_of_deltas
    [of initial_state "(''app.cpu'', Some ''user'')"
        "[((''app.threads'', None), 4), ((''app.cpu'', Some ''user''), 100)]"
        "[((''app.cpu'', Some ''user''), 150), ((''app.threads'', None), 4)]"
        "[((''app.cpu'', Some ''user''), 220)]" 7]
  by (simp add: initial_state_def rt_value_def)

text \<open>
  The claim as stated, a total of 70 after the third cycle, fails at the very
  input it names.
\<close>

theorem three_cycles_counterexample:
  "run_cycles
     [[(1, [((''app.cpu'', Some ''user''), 100)])],
      [(1, [((''app.cpu'', Some ''user''), 150)])],
      [(1, [((''app.cpu'', Some ''user''), 220)])]] initial_state =
   Inr \<lparr>metrics_history = [(1, [((''app.cpu'', Some ''user''), [150, 220])])],
        running_total_metrics = [((''app.cpu'', Some ''user''), 120)]\<rparr> \<and>
   map_of [((''app.cpu'', Some ''user''), 120::int)] (''app.cpu'', Some ''user'') \<noteq> Some 70"
  by (simp add: initial_state_def gather_sample_def record_all_def record_metrics_def
      record_metric_def reset_absolute_metrics_def reset_entry_def
      calculate_running_total_def calc_entry_def rt_init_def dict_add_def last2_def
      purge_def)

section \<open>A newly observed pid\<close>

text \<open>
  Claim C3 at a failing input. The running total of an \<^verbatim>\<open>app.cpu\<close> key is 100
  when the entry of a newly observed pid (one value in its history) is
  processed: the entry stores 0. Over three cycles, pid 1 has contributed 50 and
  then 50 when pid 2 appears in the third cycle, and the total ends at 0.
\<close>

theorem new_pid_resets_running_total:
  "calc_entry [1, 2] 2 [((''app.cpu'', Some ''user''), 100)] ((''app.cpu'', Some ''user''), [7]) =
     Inr [((''app.cpu'', Some ''user''), 0)] \<and>
   run_cycles
     [[(1, [((''app.cpu'', Some ''user''), 100)])],
      [(1, [((''app.cpu'', Some ''user''), 150)])],
      [(1, [((''app.cpu'', Some ''user''), 200)]), (2, [((''app.cpu'', Some ''user''), 7)])]]
     initial_state =
   Inr \<lparr>metrics_history = [(1, [((''app.cpu'', Some ''user''), [150, 200])]),
                           (2, [((''app.cpu'', Some ''user''), [7])])],
        running_total_metrics = [((''app.cpu'', Some ''user''), 0)]\<rparr>"
  by (simp add: initial_state_def gather_sample_def record_all_def record_metrics_def
      record_metric_def reset_absolute_metrics_def reset_entry_def
      calculate_running_total_def calc_entry_def rt_init_def dict_add_def last2_def
      purge_def)

section \<open>Readers\<close>

text \<open>
  Claim C6, as the code has it. When \<^verbatim>\<open>_failed\<close> is set at the start of
  \<^verbatim>\<open>run_single_cycle\<close>, the call opens no file, reports nothing and leaves the
  flag set; it stores the time of the call and returns \<^verbatim>\<open>None\<close>, for every
  collector argument.
\<close>

theorem failed_reader_returns_none:
  "failed rd \<Longrightarrow>
   run_single_cycle env rd collector = (rd\<lparr>timestamp := Some (time_now env)\<rparr>, [], Inr None)"
  by (simp add: run_single_cycle_def)

theorem failed_reader_returns_none_witness:
  "failed \<lparr>reader_pid = 1, file_pattern = ''/proc/%ld/stat'', file_handle = None,
            timestamp = None, failed = True\<rparr> \<and>
   run_single_cycle
     \<lparr>time_now = 1000, format_path = (\<lambda>pat p. ''/proc/1/stat''),
       open_file = (\<lambda>f. Inr 3), gather = (\<lambda>f c. Inr (Some c)), close_file = (\<lambda>f. None)\<rparr>
     \<lparr>reader_pid = 1, file_pattern = ''/proc/%ld/stat'', file_handle = None,
       timestamp = None, failed = True\<rparr>
     (Some [((''app.threads'', None), 4)]) =
   (\<lparr>reader_pid = 1, file_pattern = ''/proc/%ld/stat'', file_handle = None,
      timestamp = Some 1000, failed = True\<rparr>, [], Inr None)"
  using failed_reader_returns_none
    [of "\<lparr>reader_pid = 1, file_pattern = ''/proc/%ld/stat'', file_handle = None,
            timestamp = None, failed = True\<rparr>"
        "\<lparr>time_now = 1000, format_path = (\<lambda>pat p. ''/proc/1/stat''),
       open_file = (\<lambda>f. Inr 3), gather = (\<lambda>f c. Inr (Some c)), close_file = (\<lambda>f. None)\<rparr>"
        "Some [((''app.threads'', None), 4)]"]
  by simp

text \<open>
  The claim as stated, that the collector is returned, fails: the early
  \<^verbatim>\<open>return\<close> carries no value.
\<close>

theorem failed_reader_counterexample:
  "snd (snd (run_single_cycle
     \<lparr>time_now = 1000, format_path = (\<lambda>pat p. ''/proc/1/stat''),
       open_file = (\<lambda>f. Inr 3), gather = (\<lambda>f c. Inr (Some c)), close_file = (\<lambda>f. None)\<rparr>
     \<lparr>reader_pid = 1, file_pattern = ''/proc/%ld/stat'', file_handle = None,
       timestamp = None, failed = True\<rparr>
     (Some [((''app.threads'', None), 4)]))) \<noteq> Inr (Some [((''app.threads'', None), 4)])"
  by (simp add: run_single_cycle_def)

text \<open>
  Claim C8. A reader that has not failed and holds no open file tries to open
  its file. When \<^verbatim>\<open>open\<close> raises an \<^verbatim>\<open>IOError\<close> with errno 13 (permission
  denied) or errno 2 (not found), the flag \<^verbatim>\<open>_failed\<close> is set, the error is
  reported to the logger, and the call returns the collector without raising.
  Any other error of \<^verbatim>\<open>open\<close> leaves \<^verbatim>\<open>run_single_cycle\<close> as an exception.
\<close>

theorem open_errors:
  assumes "\<not> failed rd" and "file_handle rd = None"
    and "filename = format_path env (file_pattern rd) (reader_pid rd)"
    and "c = (case collector of None \<Rightarrow> [] | Some c \<Rightarrow> c)"
  shows
   "(open_file env filename = Inl (IOError 13) \<longrightarrow>
       run_single_cycle env rd collector =
         (rd\<lparr>timestamp := Some (time_now env), failed := True\<rparr>,
          [Stdout (IOError 13),
           LoggerError ''The agent does not have permission to read %s.  Maybe you should run it as root.'' filename],
          Inr (Some c))) \<and>
    (open_file env filename = Inl (IOError 2) \<longrightarrow>
       run_single_cycle env rd collector =
         (rd\<lparr>timestamp := Some (time_now env), failed := True\<rparr>,
          [Stdout (IOError 2),
           LoggerError ''The agent cannot read %s.  Your system may not support that proc file type'' filename],
          Inr (Some c))) \<and>
    (open_file env filename = Inl e \<longrightarrow> e \<noteq> IOError 13 \<longrightarrow> e \<noteq> IOError 2 \<longrightarrow>
       snd (snd (run_single_cycle env rd collector)) = Inl e)"
  using assms
  by (auto simp: run_single_cycle_def open_block_def read_block_def Let_def
      split: py_exception.splits)

theorem open_errors_witness:
  "run_single_cycle
     \<lparr>time_now = 1000, format_path = (\<lambda>pat p. ''/proc/812/io''),
       open_file = (\<lambda>f. Inl (IOError 13)), gather = (\<lambda>f c. Inr (Some c)),
       close_file = (\<lambda>f. None)\<rparr>
     \<lparr>reader_pid = 812, file_pattern = ''/proc/%ld/io'', file_handle = None,
       timestamp = None, failed = False\<rparr>
     (Some [((''app.threads'', None), 4)]) =
   (\<lparr>reader_pid = 812, file_pattern = ''/proc/%ld/io'', file_handle = None,
      timestamp = Some 1000, failed = True\<rparr>,
    [Stdout (IOError 13),
     LoggerError ''The agent does not have permission to read %s.  Maybe you should run it as root.''
       ''/proc/812/io''],
    Inr (Some [((''app.threads'', None), 4)])) \<and>
   run_single_cycle
     \<lparr>time_now = 1000, format_path = (\<lambda>pat p. ''/proc/812/io''),
       open_file = (\<lambda>f. Inl (IOError 2)), gather = (\<lambda>f c. Inr (Some c)),
       close_file = (\<lambda>f. None)\<rparr>
     \<lparr>reader_pid = 812, file_pattern = ''/proc/%ld/io'', file_handle = None,
       timestamp = None, failed = False\<rparr>
     None =
   (\<lparr>reader_pid = 812, file_pattern = ''/proc/%ld/io'', file_handle = None,
      timestamp = Some 1000, failed = True\<rparr>,
    [Stdout (IOError 2),
     LoggerError ''The agent cannot read %s.  Your system may not support that proc file type''
       ''/proc/812/io''],
    Inr (Some [])) \<and>
   snd (snd (run_single_cycle
     \<lparr>time_now = 1000, format_path = (\<lambda>pat p. ''/proc/812/io''),
       open_file = (\<lambda>f. Inl (IOError 24)), gather = (\<lambda>f c. Inr (Some c)),
       close_file = (\<lambda>f. None)\<rparr>
     \<lparr>reader_pid = 812, file_pattern = ''/proc/%ld/io'', file_handle = None,
       timestamp = None, failed = False\<rparr>
     None)) = Inl (IOError 24)"
  using
    open_errors
      [of "\<lparr>reader_pid = 812, file_pattern = ''/proc/%ld/io'', file_handle = None,
             timestamp = None, failed = False\<rparr>"
          "''/proc/812/io''"
          "\<lparr>time_now = 1000, format_path = (\<lambda>pat p. ''/proc/812/io''),
            open_file = (\<lambda>f. Inl (IOError 13)), gather = (\<lambda>f c. Inr (Some c)),
            close_file = (\<lambda>f. None)\<rparr>"
          "[((''app.threads'', None), 4)]" "Some [((''app.threads'', None), 4)]" "IOError 13"]
    open_errors
      [of "\<lparr>reader_pid = 812, file_pattern = ''/proc/%ld/io'', file_handle = None,
             timestamp = None, failed = False\<rparr>"
          "''/proc/812/io''"
          "\<lparr>time_now = 1000, format_path = (\<lambda>pat p. ''/proc/812/io''),
            open_file = (\<lambda>f. Inl (IOError 2)), gather = (\<lambda>f c. Inr (Some c)),
            close_file = (\<lambda>f. None)\<rparr>"
          "[]" None "IOError 2"]
    open_errors
      [of "\<lparr>reader_pid = 812, file_pattern = ''/proc/%ld/io'', file_handle = None,
             timestamp = None, failed = False\<rparr>"
          "''/proc/812/io''"
          "\<lparr>time_now = 1000, format_path = (\<lambda>pat p. ''/proc/812/io''),
            open_file = (\<lambda>f. Inl (IOError 24)), gather = (\<lambda>f c. Inr (Some c)),
            close_file = (\<lambda>f. None)\<rparr>"
          "[]" None "IOError 24"]
  by simp

section \<open>Selecting processes\<close>

text \<open>
  Claim C4 at a failing input. The target pids hold 4242 and no pattern is
  configured; \<^verbatim>\<open>os.kill(4242, 0)\<close> raises \<^verbatim>\<open>OSError\<close> with errno 3, so
  \<^verbatim>\<open>__is_running\<close> says the process is not running (with errno 1, permission
  denied, it says the process is running). \<^verbatim>\<open>__select_processes\<close> returns the
  target pids as they are, 4242 included.
\<close>

theorem explicit_pids_not_filtered:
  "select_processes
     \<lparr>popen_ps = Inr [], re_search = (\<lambda>m l. Inr False), int_of_string = (\<lambda>s. Inl ValueError)\<rparr>
     \<lparr>commandline_matcher = None, target_pids = {4242}\<rparr> = Inr {4242} \<and>
   is_running (\<lambda>p. if p = 4242 then Some (OSError 3) else None) 4242 = Inr False \<and>
   is_running (\<lambda>p. if p = 4242 then Some (OSError 1) else None) 4242 = Inr True"
  by (simp add: select_processes_def is_running_def)

lemma match_line_no_match:
  assumes "0 < py_find (py_strip line) (CHR '' '') \<longrightarrow> py_lower (pid_field line) \<noteq> ''pid'' \<longrightarrow>
             (\<exists>p. int_of_string env (pid_field line) = Inr p) \<and>
             re_search env m (command_field line) = Inr False"
  shows "match_line env m matching_pids line = Inr matching_pids"
  using assms
  by (auto simp: match_line_def pid_field_def command_field_def Let_def)

lemma match_lines_no_match:
  assumes "\<forall>line \<in> set lines.
             0 < py_find (py_strip line) (CHR '' '') \<longrightarrow> py_lower (pid_field line) \<noteq> ''pid'' \<longrightarrow>
             (\<exists>p. int_of_string env (pid_field line) = Inr p) \<and>
             re_search env m (command_field line) = Inr False"
  shows "match_lines env m lines matching_pids = Inr matching_pids"
  using assms
proof (induction lines)
  case Nil
  then show ?case by simp
next
  case (Cons line lines)
  then have "match_line env m matching_pids line = Inr matching_pids"
    by (intro match_line_no_match) simp
  with Cons show ?case by simp
qed

text \<open>
  Claim C5, as the code has it. Without a truthy pattern, selection raises
  nothing. With a pattern, when the listing is read and, for every line that has
  a pid field other than the header's, the pid field is a number and
  \<^verbatim>\<open>re.search\<close> finds the pattern nowhere in the command line, selection returns
  the empty set; when spawning or reading the listing raises, the exception
  leaves \<^verbatim>\<open>__select_processes\<close>.
\<close>

theorem select_processes_outcomes:
  "(commandline_matcher cfg = None \<or> commandline_matcher cfg = Some [] \<longrightarrow>
      (\<exists>pids. select_processes env cfg = Inr pids)) \<and>
   (commandline_matcher cfg = Some m \<longrightarrow> m \<noteq> [] \<longrightarrow> popen_ps env = Inr lines \<longrightarrow>
      (\<forall>line \<in> set lines.
         0 < py_find (py_strip line) (CHR '' '') \<longrightarrow> py_lower (pid_field line) \<noteq> ''pid'' \<longrightarrow>
         (\<exists>p. int_of_string env (pid_field line) = Inr p) \<and>
         re_search env m (command_field line) = Inr False) \<longrightarrow>
      select_processes env cfg = Inr {}) \<and>
   (commandline_matcher cfg = Some m \<longrightarrow> m \<noteq> [] \<longrightarrow> popen_ps env = Inl e \<longrightarrow>
      select_processes env cfg = Inl e)"
proof (intro conjI impI)
  assume "commandline_matcher cfg = None \<or> commandline_matcher cfg = Some []"
  then show "\<exists>pids. select_processes env cfg = Inr pids"
    by (auto simp: select_processes_def)
next
  assume "commandline_matcher cfg = Some m" "m \<noteq> []" "popen_ps env = Inr lines"
    and "\<forall>line \<in> set lines.
         0 < py_find (py_strip line) (CHR '' '') \<longrightarrow> py_lower (pid_field line) \<noteq> ''pid'' \<longrightarrow>
         (\<exists>p. int_of_string env (pid_field line) = Inr p) \<and>
         re_search env m (command_field line) = Inr False"
  then show "select_processes env cfg = Inr {}"
    using match_lines_no_match [of lines env m "{}"] by (simp add: select_processes_def)
next
  assume "commandline_matcher cfg = Some m" "m \<noteq> []" "popen_ps env = Inl e"
  then show "select_processes env cfg = Inl e"
    by (simp add: select_processes_def)
qed

theorem select_processes_outcomes_witness:
  "(\<exists>pids. select_processes
      \<lparr>popen_ps = Inr [], re_search = (\<lambda>m l. Inr False), int_of_string = (\<lambda>s. Inl ValueError)\<rparr>
      \<lparr>commandline_matcher = None, target_pids = {812, 4242}\<rparr> = Inr pids) \<and>
   py_lower (pid_field ''  PID COMMAND'') = ''pid'' \<and>
   0 < py_find (py_strip ''    1 /sbin/init'') (CHR '' '') \<and>
   py_lower (pid_field ''    1 /sbin/init'') \<noteq> ''pid'' \<and>
   pid_field ''    1 /sbin/init'' = ''1'' \<and>
   command_field ''    1 /sbin/init'' = ''/sbin/init'' \<and>
   select_processes
     \<lparr>popen_ps = Inr [''  PID COMMAND'', ''    1 /sbin/init''],
       re_search = (\<lambda>m l. Inr (l = ''java -jar tomcat.jar'')),
       int_of_string = (\<lambda>s. if s = ''1'' then Inr 1 else Inl ValueError)\<rparr>
     \<lparr>commandline_matcher = Some ''java'', target_pids = {}\<rparr> = Inr {} \<and>
   select_processes
     \<lparr>popen_ps = Inl (OSError 2), re_search = (\<lambda>m l. Inr False),
       int_of_string = (\<lambda>s. Inl ValueError)\<rparr>
     \<lparr>commandline_matcher = Some ''java'', target_pids = {}\<rparr> = Inl (OSError 2)"
  using
    select_processes_outcomes
      [of "\<lparr>commandline_matcher = None, target_pids = {812, 4242}\<rparr>"
          "\<lparr>popen_ps = Inr [], re_search = (\<lambda>m l. Inr False),
            int_of_string = (\<lambda>s. Inl ValueError)\<rparr>" "''java''" "[]" "OSError 2"]
    select_processes_outcomes
      [of "\<lparr>commandline_matcher = Some ''java'', target_pids = {}\<rparr>"
          "\<lparr>popen_ps = Inr [''  PID COMMAND'', ''    1 /sbin/init''],
            re_search = (\<lambda>m l. Inr (l = ''java -jar tomcat.jar'')),
            int_of_string = (\<lambda>s. if s = ''1'' then Inr 1 else Inl ValueError)\<rparr>"
          "''java''" "[''  PID COMMAND'', ''    1 /sbin/init'']" "OSError 2"]
    select_processes_outcomes
      [of "\<lparr>commandline_matcher = Some ''java'', target_pids = {}\<rparr>"
          "\<lparr>popen_ps = Inl (OSError 2), re_search = (\<lambda>m l. Inr False),
            int_of_string = (\<lambda>s. Inl ValueError)\<rparr>" "''java''" "[]" "OSError 2"]
  by (simp add: pid_field_def command_field_def py_strip_def py_find_def is_space_def
      py_lower_def lower_char_def)

text \<open>
  The claim as stated, an empty set when the listing tool cannot be invoked,
  fails: the \<^verbatim>\<open>OSError\<close> of \<^verbatim>\<open>Popen\<close> is not caught.
\<close>

theorem select_processes_counterexample:
  "select_processes
     \<lparr>popen_ps = Inl (OSError 2), re_search = (\<lambda>m l. Inr False),
       int_of_string = (\<lambda>s. Inl ValueError)\<rparr>
     \<lparr>commandline_matcher = Some ''java'', target_pids = {}\<rparr> \<noteq> Inr {}"
  by (simp add: select_processes_def)

section \<open>A pid that has disappeared\<close>

text \<open>
  Claim C7 at failing inputs. Pid 1 is selected in two cycles with the values
  100 and 150 for an \<^verbatim>\<open>app.cpu\<close> key, so the running total is 50 and the last
  difference is 50; in the third cycle pid 1 is gone and pid 2 is selected for
  the first time. The entry of pid 1 lowers the total to 0 and the entry of
  pid 2, processed after it, stores 0: the total ends at 0, as it does for the
  same pass on a history without pid 1. For \<^verbatim>\<open>app.disk.bytes\<close>, which the
  recompute pass does not treat as cumulative, a pid with the values 900 and 950
  that is gone in the third cycle leaves a total of 950.
\<close>

theorem dead_pid_backout_lost:
  "run_cycles
     [[(1, [((''app.cpu'', Some ''user''), 100)])],
      [(1, [((''app.cpu'', Some ''user''), 150)])],
      [(2, [((''app.cpu'', Some ''user''), 7)])]] initial_state =
   Inr \<lparr>metrics_history = [(2, [((''app.cpu'', Some ''user''), [7])])],
        running_total_metrics = [((''app.cpu'', Some ''user''), 0)]\<rparr> \<and>
   calculate_running_total [2]
     \<lparr>metrics_history = [(1, [((''app.cpu'', Some ''user''), [100, 150])]),
                         (2, [((''app.cpu'', Some ''user''), [7])])],
       running_total_metrics = [((''app.cpu'', Some ''user''), 50)]\<rparr> =
   Inr \<lparr>metrics_history = [(2, [((''app.cpu'', Some ''user''), [7])])],
        running_total_metrics = [((''app.cpu'', Some ''user''), 0)]\<rparr> \<and>
   calculate_running_total [2]
     \<lparr>metrics_history = [(2, [((''app.cpu'', Some ''user''), [7])])],
       running_total_metrics = [((''app.cpu'', Some ''user''), 50)]\<rparr> =
   Inr \<lparr>metrics_history = [(2, [((''app.cpu'', Some ''user''), [7])])],
        running_total_metrics = [((''app.cpu'', Some ''user''), 0)]\<rparr> \<and>
   run_cycles
     [[(1, [((''app.disk.bytes'', Some ''read''), 900)])],
      [(1, [((''app.disk.bytes'', Some ''read''), 950)])],
      []] initial_state =
   Inr \<lparr>metrics_history = [],
        running_total_metrics = [((''app.disk.bytes'', Some ''read''), 950)]\<rparr>"
  by (simp add: initial_state_def gather_sample_def record_all_def record_metrics_def
      record_metric_def reset_absolute_metrics_def reset_entry_def
      calculate_running_total_def calc_entry_def rt_init_def dict_add_def last2_def
      purge_def)

end
